theory Spec2Isabelle
  imports Main "HOL-Library.Char_ord" "HOL-Library.List_Lexorder" "HOL-Library.Multiset"
begin

section \<open>libtaxii.common: values, errors and diagnostics\<close>

text \<open>
  The module \<^verbatim>\<open>libtaxii/common.py\<close> holds a process-wide XML parser slot, a date/time
  helper and the class \<^verbatim>\<open>TAXIIBase\<close>, whose \<^verbatim>\<open>__eq__\<close> compares two message
  objects attribute by attribute, dispatching on the run-time type of each attribute
  value. The values an attribute can hold are modelled by one datatype:

  \<^item> \<open>Atom\<close>: \<^verbatim>\<open>None\<close>, an integer or a byte string (compared by value);
  \<^item> \<open>PyList\<close>: a list;
  \<^item> \<open>PyDict\<close>: a dict, as an association list in iteration order, keyed by atoms;
  \<^item> \<open>Element\<close>: an lxml element: its identity, the text \<^verbatim>\<open>etree.tostring\<close> renders
    for it, its attribute names and its children;
  \<^item> \<open>Obj\<close>: an instance of a subclass of \<^verbatim>\<open>TAXIIBase\<close>: its identity, the name of
    its class, its \<^verbatim>\<open>sort_key\<close> (\<open>None\<close> when the subclass leaves the property
    unimplemented, so that reading it raises) and its \<^verbatim>\<open>__dict__\<close>.

  The type \<open>'k\<close> of sort keys is any linear order. Identities stand for Python's object
  identity: lxml elements and \<^verbatim>\<open>TAXIIBase\<close> instances hash by identity. Other kinds
  of value (floating-point numbers among them) are not covered.
\<close>

datatype atom = ANone | AInt int | AStr string

datatype 'k pyval =
    Atom atom
  | PyList "'k pyval list"
  | PyDict "(atom \<times> 'k pyval) list"
  | Element nat string "string list" "'k pyval list"
  | Obj nat string "'k option" "(string \<times> 'k pyval) list"

text \<open>Every exception of the source is a value; a computation returns \<open>Inl\<close> of it.\<close>

datatype py_error =
    AttributeError | KeyError | TypeError | IndexError | NotImplementedError | ValueError

text \<open>
  With \<^verbatim>\<open>debug=True\<close> the comparison prints what it finds. Each \<^verbatim>\<open>print\<close> statement
  of \<^verbatim>\<open>__eq__\<close> is one constructor, holding the arguments of its format string.
\<close>

datatype 'k msg =
    OtherWasNone
  | ClassNamesNotEqual string string
  | MemberName string
  | DictKeysNotEqual "'k pyval" "'k pyval"
  | DictValuesNotEqual "'k pyval" "'k pyval"
  | WasNotEqual string "'k pyval" "'k pyval"

definition says :: "bool \<Rightarrow> 'm \<Rightarrow> 'm list" where
  "says debug m = (if debug then [m] else [])"

subsection \<open>The built-in operations the comparison uses\<close>

text \<open>\<^verbatim>\<open>v.__class__.__name__\<close>\<close>

fun class_name :: "'k pyval \<Rightarrow> string" where
  "class_name (Atom ANone) = ''NoneType''"
| "class_name (Atom (AInt n)) = ''int''"
| "class_name (Atom (AStr s)) = ''str''"
| "class_name (PyList xs) = ''list''"
| "class_name (PyDict d) = ''dict''"
| "class_name (Element i t as cs) = ''_Element''"
| "class_name (Obj i c k fs) = c"

text \<open>\<^verbatim>\<open>isinstance(v, TAXIIBase)\<close>\<close>

fun is_TAXIIBase :: "'k pyval \<Rightarrow> bool" where
  "is_TAXIIBase (Obj i c k fs) = True"
| "is_TAXIIBase v = False"

text \<open>\<^verbatim>\<open>v.__dict__\<close>: only instances of Python classes have one.\<close>

fun py_dict :: "'k pyval \<Rightarrow> py_error + (string \<times> 'k pyval) list" where
  "py_dict (Obj i c k fs) = Inr fs"
| "py_dict v = Inl AttributeError"

text \<open>\<^verbatim>\<open>len(v)\<close>; an lxml element's length is the number of its children.\<close>

fun py_len :: "'k pyval \<Rightarrow> py_error + nat" where
  "py_len (Atom (AStr s)) = Inr (length s)"
| "py_len (PyList xs) = Inr (length xs)"
| "py_len (PyDict d) = Inr (length d)"
| "py_len (Element i t as cs) = Inr (length cs)"
| "py_len v = Inl TypeError"

text \<open>
  Iteration, as \<^verbatim>\<open>sorted\<close>, \<^verbatim>\<open>zip\<close> and \<^verbatim>\<open>set\<close> do it: a string yields its
  characters, a dict its keys, an element its children.
\<close>

fun py_iter :: "'k pyval \<Rightarrow> py_error + 'k pyval list" where
  "py_iter (Atom (AStr s)) = Inr (map (\<lambda>c. Atom (AStr [c])) s)"
| "py_iter (PyList xs) = Inr xs"
| "py_iter (PyDict d) = Inr (map (\<lambda>kv. Atom (fst kv)) d)"
| "py_iter (Element i t as cs) = Inr cs"
| "py_iter v = Inl TypeError"

text \<open>\<^verbatim>\<open>v.keys()\<close>; an lxml element answers with its attribute names.\<close>

fun py_keys :: "'k pyval \<Rightarrow> py_error + atom list" where
  "py_keys (PyDict d) = Inr (map fst d)"
| "py_keys (Element i t as cs) = Inr (map AStr as)"
| "py_keys v = Inl AttributeError"

text \<open>
  \<^verbatim>\<open>v[k]\<close>, for the two kinds of value that have \<^verbatim>\<open>keys()\<close>: a dict raises
  \<^verbatim>\<open>KeyError\<close> on a missing key; an element indexes its children by an integer
  (negative ones from the end).
\<close>

fun py_getitem :: "'k pyval \<Rightarrow> atom \<Rightarrow> py_error + 'k pyval" where
  "py_getitem (PyDict d) k = (case map_of d k of None \<Rightarrow> Inl KeyError | Some v \<Rightarrow> Inr v)"
| "py_getitem (Element i t as cs) (AInt j) =
     (let n = int (length cs); j' = (if j < 0 then n + j else j)
      in if 0 \<le> j' \<and> j' < n then Inr (cs ! nat j') else Inl IndexError)"
| "py_getitem v k = Inl TypeError"

text \<open>\<^verbatim>\<open>etree.tostring(v)\<close>\<close>

fun tostring :: "'k pyval \<Rightarrow> py_error + string" where
  "tostring (Element i t as cs) = Inr t"
| "tostring v = Inl TypeError"

text \<open>
  \<^verbatim>\<open>attrgetter('sort_key')(v)\<close>: the property of \<^verbatim>\<open>TAXIIBase\<close> itself raises
  \<^verbatim>\<open>NotImplementedError\<close>, and no other kind of value has the attribute.
\<close>

fun sort_key_of :: "'k pyval \<Rightarrow> py_error + 'k" where
  "sort_key_of (Obj i c (Some k) fs) = Inr k"
| "sort_key_of (Obj i c None fs) = Inl NotImplementedError"
| "sort_key_of v = Inl AttributeError"

text \<open>Applying a function that may raise to every element, in order.\<close>

fun collect :: "('a \<Rightarrow> py_error + 'b) \<Rightarrow> 'a list \<Rightarrow> py_error + 'b list" where
  "collect f [] = Inr []"
| "collect f (x # xs) =
     (case f x of
        Inl e \<Rightarrow> Inl e
      | Inr y \<Rightarrow> (case collect f xs of Inl e \<Rightarrow> Inl e | Inr ys \<Rightarrow> Inr (y # ys)))"

text \<open>
  \<^verbatim>\<open>sorted(xs, key=attrgetter('sort_key'))\<close>: the keys are read first, then the
  elements are sorted by them; the sort is stable.
\<close>

definition sorted_by_key :: "('k::linorder) pyval list \<Rightarrow> py_error + 'k pyval list" where
  "sorted_by_key xs =
     (case collect sort_key_of xs of
        Inl e \<Rightarrow> Inl e
      | Inr ks \<Rightarrow> Inr (map snd (sort_key fst (zip ks xs))))"

text \<open>
  \<^verbatim>\<open>set(xs)\<close> hashes every element: an atom by its value, an element or an instance
  by its identity; lists and dicts are unhashable. Two sets are equal when they hold the
  same hash keys.
\<close>

datatype hkey = HAtom atom | HId nat

fun py_hash :: "'k pyval \<Rightarrow> py_error + hkey" where
  "py_hash (Atom a) = Inr (HAtom a)"
| "py_hash (PyList xs) = Inl TypeError"
| "py_hash (PyDict d) = Inl TypeError"
| "py_hash (Element i t as cs) = Inr (HId i)"
| "py_hash (Obj i c k fs) = Inr (HId i)"

definition py_set :: "'k pyval list \<Rightarrow> py_error + hkey list" where
  "py_set xs = collect py_hash xs"

text \<open>\<^verbatim>\<open>v is w\<close>, for the values that carry an identity.\<close>

fun same_object :: "'k pyval \<Rightarrow> 'k pyval \<Rightarrow> bool" where
  "same_object (Obj i c k fs) (Obj j c' k' fs') = (i = j)"
| "same_object (Element i t as cs) (Element j t' as' cs') = (i = j)"
| "same_object v w = False"

text \<open>
  The attribute names \<^verbatim>\<open>__eq__\<close> visits:
  \<^verbatim>\<open>[attr for attr in dir(self) if not callable(attr) and attr.startswith('_')
     and not attr.startswith('__')]\<close>.
  \<^verbatim>\<open>callable\<close> of a string is false, and \<^verbatim>\<open>dir\<close> lists the names in sorted order
  without repetition. The names that \<^verbatim>\<open>dir\<close> takes from the class are skipped by the
  loop (they are not in \<^verbatim>\<open>self.__dict__\<close>), so only the instance's own are listed.
\<close>

definition is_member_name :: "string \<Rightarrow> bool" where
  "is_member_name attr = (take 1 attr = ''_'' \<and> take 2 attr \<noteq> ''__'')"

definition members :: "(string \<times> 'k pyval) list \<Rightarrow> string list" where
  "members fs = filter is_member_name (sort (remdups (map fst fs)))"

section \<open>The XML parser slot\<close>

text \<open>
  \<^verbatim>\<open>_XML_PARSER\<close> is a module-level variable. A parser is an object with an identity
  and the two options the default sets; constructing one takes the next free identity
  of the process.
\<close>

record xml_parser =
  parser_id :: nat
  no_network :: bool
  huge_tree :: bool

record process =
  XML_PARSER :: "xml_parser option"
  next_id :: nat

definition XMLParser :: "bool \<Rightarrow> bool \<Rightarrow> process \<Rightarrow> xml_parser \<times> process" where
  "XMLParser nn ht s =
     (\<lparr>parser_id = next_id s, no_network = nn, huge_tree = ht\<rparr>,
      s\<lparr>next_id := Suc (next_id s)\<rparr>)"

definition get_xml_parser :: "process \<Rightarrow> xml_parser \<times> process" where
  "get_xml_parser s =
     (case XML_PARSER s of
        None \<Rightarrow> (case XMLParser True True s of
                   (p, s') \<Rightarrow> (p, s'\<lparr>XML_PARSER := Some p\<rparr>))
      | Some p \<Rightarrow> (p, s))"

definition set_xml_parser :: "xml_parser option \<Rightarrow> process \<Rightarrow> process" where
  "set_xml_parser xml_parser s = s\<lparr>XML_PARSER := xml_parser\<rparr>"

section \<open>Parsing a date/time string\<close>

text \<open>
  \<^verbatim>\<open>dateutil.parser.parse\<close> belongs to another package; it is the parameter \<open>parse\<close>,
  a function that returns a timestamp or raises.
\<close>

definition parse_datetime_string ::
  "(string \<Rightarrow> py_error + 'ts) \<Rightarrow> string option \<Rightarrow> py_error + 'ts option" where
  "parse_datetime_string parse datetime_string =
     (case datetime_string of
        None \<Rightarrow> Inr None
      | Some s \<Rightarrow>
          if s = [] then Inr None
          else (case parse s of Inl e \<Rightarrow> Inl e | Inr t \<Rightarrow> Inr (Some t)))"

section \<open>TAXIIBase.\_\_eq\_\_\<close>

text \<open>Size facts for the termination proof.\<close>

lemma collect_length: "collect f xs = Inr ys \<Longrightarrow> length ys = length xs"
  by (induction xs arbitrary: ys) (auto split: sum.splits)

lemma sum_size_insort_key:
  "sum_list (map f (insort_key g x xs)) = f x + sum_list (map f xs)"
  for f :: "'a \<Rightarrow> nat"
  by (induction xs) auto

lemma sum_size_sort_key: "sum_list (map f (sort_key g xs)) = sum_list (map f xs)"
  for f :: "'a \<Rightarrow> nat"
  by (induction xs) (auto simp: sum_size_insort_key)

lemma sorted_by_key_sum:
  assumes "sorted_by_key xs = Inr sx"
  shows "sum_list (map size sx) = sum_list (map size xs)"
proof -
  from assms obtain ks where ks: "collect sort_key_of xs = Inr ks"
    and sx: "sx = map snd (sort_key fst (zip ks xs))"
    by (auto simp: sorted_by_key_def split: sum.splits)
  have "sum_list (map size sx) = sum_list (map (size \<circ> snd) (sort_key fst (zip ks xs)))"
    by (simp add: sx)
  also have "\<dots> = sum_list (map (size \<circ> snd) (zip ks xs))"
    by (rule sum_size_sort_key)
  also have "\<dots> = sum_list (map size (map snd (zip ks xs)))"
    by simp
  also have "map snd (zip ks xs) = xs"
    using collect_length [OF ks] by simp
  finally show ?thesis .
qed

lemma sum_le_size_list: "sum_list (map f xs) \<le> size_list f xs"
  by (induction xs) auto

lemma py_iter_sum: "py_iter v = Inr ys \<Longrightarrow> sum_list (map size ys) \<le> size v"
  by (cases v rule: py_iter.cases)
     (auto simp: comp_def intro: le_trans [OF sum_le_size_list])

lemma map_of_size:
  "map_of d k = Some v \<Longrightarrow> size v < size_list (size_prod (\<lambda>x. 0) size) d"
  by (induction d) (auto split: if_splits)

lemma member_size: "x \<in> set xs \<Longrightarrow> size x < Suc (size_list size xs)"
  by (induction xs) auto

lemma py_getitem_size: "py_getitem v k = Inr w \<Longrightarrow> size w < size v"
  by (cases "(v, k)" rule: py_getitem.cases)
     (auto simp: Let_def member_size dest: map_of_size split: option.splits if_splits)

lemma py_dict_size:
  "py_dict v = Inr fs \<Longrightarrow> size_list (size_prod (\<lambda>x. 0) size) fs < size v"
  by (cases v) auto

text \<open>
  The method and the loops inside it, one function each:

  \<^item> \<open>TAXIIBase_eq self other debug\<close> is \<^verbatim>\<open>self.__eq__(other, debug)\<close>: what it
    prints, and the boolean it returns or the exception it raises. Every call site has
    an instance as \<open>self\<close>.
  \<^item> \<open>eq_members\<close> is the loop \<^verbatim>\<open>for member in members\<close>.
  \<^item> \<open>eq_value\<close> is the \<^verbatim>\<open>isinstance\<close> chain of the loop body. It returns \<^verbatim>\<open>eq\<close>
    together with \<^verbatim>\<open>member\<close>, \<^verbatim>\<open>self_value\<close> and \<^verbatim>\<open>other_value\<close>, which the list
    branch rebinds before the final \<^verbatim>\<open>print\<close> reads them.
  \<^item> \<open>eq_items\<close> is the loop over \<^verbatim>\<open>zip(self_value, other_value)\<close>. Its first argument
    is the variable \<^verbatim>\<open>eq\<close>, which every iteration overwrites. The lists it runs on are
    never empty; the value \<^verbatim>\<open>eq\<close> has before the loop is never read.
  \<^item> \<open>eq_dict_items\<close> is the loop \<^verbatim>\<open>for k, v in self_value.iteritems()\<close>. The loop
    assigns \<^verbatim>\<open>eq = False\<close> at a mismatch, and the statement after the loop assigns
    \<^verbatim>\<open>eq = True\<close>; so the loop only prints or raises.
  \<^item> \<open>rich_eq\<close> and \<open>rich_ne\<close> are Python 2's \<^verbatim>\<open>v == w\<close> and \<^verbatim>\<open>v != w\<close>: when one
    side is an instance, its \<^verbatim>\<open>__eq__\<close> (or \<^verbatim>\<open>__ne__\<close>, which negates \<^verbatim>\<open>__eq__\<close>)
    decides, with \<^verbatim>\<open>debug\<close> at its default; lists and dicts compare their items, an
    item that is the same object being equal without a call (\<open>rich_eq_bool\<close>).
\<close>

function (sequential)
    TAXIIBase_eq :: "('k::linorder) pyval \<Rightarrow> 'k pyval \<Rightarrow> bool \<Rightarrow> 'k msg list \<times> (py_error + bool)"
and eq_members :: "string list \<Rightarrow> (string \<times> 'k pyval) list \<Rightarrow> 'k pyval \<Rightarrow> bool
      \<Rightarrow> 'k msg list \<times> (py_error + bool)"
and eq_value :: "string \<Rightarrow> 'k pyval \<Rightarrow> 'k pyval \<Rightarrow> bool
      \<Rightarrow> 'k msg list \<times> (py_error + bool \<times> string \<times> 'k pyval \<times> 'k pyval)"
and eq_items :: "bool \<Rightarrow> 'k pyval list \<Rightarrow> 'k pyval list \<Rightarrow> bool
      \<Rightarrow> 'k msg list \<times> (py_error + bool)"
and eq_dict_items :: "(atom \<times> 'k pyval) list \<Rightarrow> 'k pyval \<Rightarrow> bool
      \<Rightarrow> 'k msg list \<times> (py_error + unit)"
and rich_eq :: "'k pyval \<Rightarrow> 'k pyval \<Rightarrow> py_error + bool"
and rich_eq_bool :: "'k pyval \<Rightarrow> 'k pyval \<Rightarrow> py_error + bool"
and rich_ne :: "'k pyval \<Rightarrow> 'k pyval \<Rightarrow> py_error + bool"
and list_eq :: "'k pyval list \<Rightarrow> 'k pyval list \<Rightarrow> py_error + bool"
and dict_eq :: "(atom \<times> 'k pyval) list \<Rightarrow> (atom \<times> 'k pyval) list \<Rightarrow> py_error + bool"
where
  "TAXIIBase_eq (Obj i c k fs) other debug =
     (if other = Atom ANone then (says debug OtherWasNone, Inr False)
      else if c \<noteq> class_name other
        then (says debug (ClassNamesNotEqual c (class_name other)), Inr False)
      else eq_members (members fs) fs other debug)"
| "TAXIIBase_eq self other debug = ([], Inl AttributeError)"

| "eq_members [] sd other debug = ([], Inr True)"
| "eq_members (member # ms) sd other debug =
     (case map_of sd member of
        None \<Rightarrow> eq_members ms sd other debug
      | Some self_value \<Rightarrow>
         (case py_dict other of
            Inl e \<Rightarrow> (says debug (MemberName member), Inl e)
          | Inr od \<Rightarrow>
             (case map_of od member of
                None \<Rightarrow> (says debug (MemberName member), Inl KeyError)
              | Some other_value \<Rightarrow>
                 (case eq_value member self_value other_value debug of
                    (out, Inl e) \<Rightarrow> (says debug (MemberName member) @ out, Inl e)
                  | (out, Inr (r, member', self_value', other_value')) \<Rightarrow>
                      if \<not> r
                      then (says debug (MemberName member) @ out
                              @ says debug (WasNotEqual member' self_value' other_value'),
                            Inr False)
                      else (case eq_members ms sd other debug of
                              (out', res) \<Rightarrow>
                                (says debug (MemberName member) @ out @ out', res))))))"

| "eq_value member (Obj i c k fs) other_value debug =
     (case TAXIIBase_eq (Obj i c k fs) other_value debug of
        (out, Inl e) \<Rightarrow> (out, Inl e)
      | (out, Inr r) \<Rightarrow> (out, Inr (r, member, Obj i c k fs, other_value)))"
| "eq_value member (PyList xs) other_value debug =
     (case py_len other_value of
        Inl e \<Rightarrow> ([], Inl e)
      | Inr n \<Rightarrow>
          if length xs \<noteq> n
          then ([], Inr (False, member @ '' lengths'',
                         Atom (AInt (int (length xs))), Atom (AInt (int n))))
          else (case xs of
                  [] \<Rightarrow> ([], Inr (True, member, PyList xs, other_value))
                | x # _ \<Rightarrow>
                    if is_TAXIIBase x
                    then (case sorted_by_key xs of
                            Inl e \<Rightarrow> ([], Inl e)
                          | Inr sx \<Rightarrow>
                             (case py_iter other_value of
                                Inl e \<Rightarrow> ([], Inl e)
                              | Inr ys \<Rightarrow>
                                 (case sorted_by_key ys of
                                    Inl e \<Rightarrow> ([], Inl e)
                                  | Inr sy \<Rightarrow>
                                     (case eq_items True sx sy debug of
                                        (out, Inl e) \<Rightarrow> (out, Inl e)
                                      | (out, Inr r) \<Rightarrow>
                                          (out, Inr (r, member, PyList sx, PyList sy))))))
                    else (case py_set xs of
                            Inl e \<Rightarrow> ([], Inl e)
                          | Inr hs \<Rightarrow>
                             (case py_iter other_value of
                                Inl e \<Rightarrow> ([], Inl e)
                              | Inr ys \<Rightarrow>
                                 (case py_set ys of
                                    Inl e \<Rightarrow> ([], Inl e)
                                  | Inr hs' \<Rightarrow>
                                     ([], Inr (set hs = set hs', member,
                                               PyList xs, other_value)))))))"
| "eq_value member (PyDict d) other_value debug =
     (case py_keys other_value of
        Inl e \<Rightarrow> ([], Inl e)
      | Inr ks \<Rightarrow>
         (case eq_dict_items d other_value debug of
            (out, Inl e) \<Rightarrow>
              ((if \<exists>k \<in> set (map fst d). k \<notin> set ks
                then says debug (DictKeysNotEqual (PyDict d) other_value) else []) @ out,
               Inl e)
          | (out, Inr u) \<Rightarrow>
              ((if \<exists>k \<in> set (map fst d). k \<notin> set ks
                then says debug (DictKeysNotEqual (PyDict d) other_value) else []) @ out,
               Inr (True, member, PyDict d, other_value))))"
| "eq_value member (Element i t as cs) other_value debug =
     (case tostring other_value of
        Inl e \<Rightarrow> ([], Inl e)
      | Inr t' \<Rightarrow> ([], Inr (t = t', member, Element i t as cs, other_value)))"
| "eq_value member (Atom a) other_value debug =
     (case rich_eq (Atom a) other_value of
        Inl e \<Rightarrow> ([], Inl e)
      | Inr r \<Rightarrow> ([], Inr (r, member, Atom a, other_value)))"

| "eq_items r (self_item # xs) (other_item # ys) debug =
     (case TAXIIBase_eq self_item other_item debug of
        (out, Inl e) \<Rightarrow> (out, Inl e)
      | (out, Inr r') \<Rightarrow>
          (case eq_items r' xs ys debug of (out', res) \<Rightarrow> (out @ out', res)))"
| "eq_items r xs ys debug = ([], Inr r)"

| "eq_dict_items [] other_value debug = ([], Inr ())"
| "eq_dict_items ((k, v) # kvs) other_value debug =
     (case py_getitem other_value k of
        Inl e \<Rightarrow> ([], Inl e)
      | Inr w \<Rightarrow>
         (case rich_ne w v of
            Inl e \<Rightarrow> ([], Inl e)
          | Inr ne \<Rightarrow>
             (case eq_dict_items kvs other_value debug of
                (out, res) \<Rightarrow>
                  ((if ne then says debug (DictValuesNotEqual v w) else []) @ out, res))))"

| "rich_eq (Obj i c k fs) w = snd (TAXIIBase_eq (Obj i c k fs) w False)"
| "rich_eq v (Obj i c k fs) = snd (TAXIIBase_eq (Obj i c k fs) v False)"
| "rich_eq (Atom a) (Atom b) = Inr (a = b)"
| "rich_eq (PyList xs) (PyList ys) =
     (if length xs \<noteq> length ys then Inr False else list_eq xs ys)"
| "rich_eq (PyDict d) (PyDict d') =
     (if length d \<noteq> length d' then Inr False else dict_eq d d')"
| "rich_eq (Element i t as cs) (Element j t' as' cs') = Inr (i = j)"
| "rich_eq v w = Inr False"

| "rich_eq_bool v w = (if same_object v w then Inr True else rich_eq v w)"

| "rich_ne (Obj i c k fs) w =
     (case snd (TAXIIBase_eq (Obj i c k fs) w False) of
        Inl e \<Rightarrow> Inl e | Inr r \<Rightarrow> Inr (\<not> r))"
| "rich_ne v (Obj i c k fs) =
     (case snd (TAXIIBase_eq (Obj i c k fs) v False) of
        Inl e \<Rightarrow> Inl e | Inr r \<Rightarrow> Inr (\<not> r))"
| "rich_ne v w = (case rich_eq v w of Inl e \<Rightarrow> Inl e | Inr r \<Rightarrow> Inr (\<not> r))"

| "list_eq (x # xs) (y # ys) =
     (case rich_eq_bool x y of
        Inl e \<Rightarrow> Inl e
      | Inr r \<Rightarrow> if r then list_eq xs ys else Inr False)"
| "list_eq xs ys = Inr True"

| "dict_eq [] d' = Inr True"
| "dict_eq ((k, v) # kvs) d' =
     (case map_of d' k of
        None \<Rightarrow> Inr False
      | Some w \<Rightarrow>
         (case rich_eq_bool v w of
            Inl e \<Rightarrow> Inl e
          | Inr r \<Rightarrow> if r then dict_eq kvs d' else Inr False))"
  by pat_completeness auto

text \<open>
  Every call is on smaller values: the sizes of the two compared values, added, go down,
  or stay while the call moves from a loop or an operator to the method.
\<close>

termination
  apply (relation "inv_image (less_than <*lex*> less_than)
    (case_sum
      (case_sum
        (case_sum (\<lambda>(self, other, debug). (size self + size other, 0))
                  (\<lambda>(ms, sd, other, debug).
                      (size_list (size_prod (\<lambda>x. 0) size) sd + size other, length ms)))
        (case_sum (\<lambda>(member, v, w, debug). (size v + size w, 3))
          (case_sum (\<lambda>(r, xs, ys, debug).
                        (sum_list (map size xs) + sum_list (map size ys), 4 + length xs))
                    (\<lambda>(kvs, w, debug).
                        (size_list (size_prod (\<lambda>x. 0) size) kvs + size w, 0)))))
      (case_sum
        (case_sum (\<lambda>(v, w). (size v + size w, 1))
                  (\<lambda>(v, w). (size v + size w, 2)))
        (case_sum (\<lambda>(v, w). (size v + size w, 2))
          (case_sum (\<lambda>(xs, ys).
                        (sum_list (map size xs) + sum_list (map size ys), 3 + length xs))
                    (\<lambda>(d, d'). (size_list (size_prod (\<lambda>x. 0) size) d
                                  + size_list (size_prod (\<lambda>x. 0) size) d', 0))))))")
  apply (auto dest!: map_of_size py_dict_size py_getitem_size sorted_by_key_sum py_iter_sum
              simp: size_list_conv_sum_list)
  done

text \<open>\<^verbatim>\<open>__ne__\<close> negates what \<^verbatim>\<open>__eq__\<close> returns.\<close>

definition TAXIIBase_ne ::
  "('k::linorder) pyval \<Rightarrow> 'k pyval \<Rightarrow> bool \<Rightarrow> 'k msg list \<times> (py_error + bool)" where
  "TAXIIBase_ne self other debug =
     (case TAXIIBase_eq self other debug of
        (out, Inl e) \<Rightarrow> (out, Inl e)
      | (out, Inr r) \<Rightarrow> (out, Inr (\<not> r)))"

subsection \<open>Values on which a comparison raises nothing\<close>

definition implements_sort_key :: "'k pyval \<Rightarrow> bool" where
  "implements_sort_key v = (case sort_key_of v of Inl e \<Rightarrow> False | Inr k \<Rightarrow> True)"

definition hashable :: "'k pyval \<Rightarrow> bool" where
  "hashable v = (case py_hash v of Inl e \<Rightarrow> False | Inr h \<Rightarrow> True)"

text \<open>
  A Python dict holds a key once. \<open>dicts_distinct\<close> says so of every dict reached from a
  value without entering an instance.
\<close>

fun dicts_distinct :: "'k pyval \<Rightarrow> bool" where
  "dicts_distinct (Atom a) = True"
| "dicts_distinct (PyList xs) = (\<forall>v \<in> set xs. dicts_distinct v)"
| "dicts_distinct (PyDict d) =
     (distinct (map fst d) \<and> (\<forall>kv \<in> set d. dicts_distinct (snd kv)))"
| "dicts_distinct (Element i t as cs) = True"
| "dicts_distinct (Obj i c k fs) = True"

text \<open>
  \<open>comparable v\<close>: a list reached from \<open>v\<close> through the attributes \<^verbatim>\<open>__eq__\<close> visits is
  empty, or starts with an instance and holds only instances that implement
  \<^verbatim>\<open>sort_key\<close>, or starts with something else and holds only hashable values; a dict
  holds each key once, and its values are instances of this kind or hold no dict with
  a repeated key.
\<close>

fun comparable :: "'k pyval \<Rightarrow> bool" where
  "comparable (Atom a) = True"
| "comparable (PyList xs) =
     (case xs of
        [] \<Rightarrow> True
      | x # _ \<Rightarrow>
          if is_TAXIIBase x
          then (\<forall>v \<in> set xs. implements_sort_key v \<and> comparable v)
          else (\<forall>v \<in> set xs. hashable v))"
| "comparable (PyDict d) =
     (distinct (map fst d)
      \<and> (\<forall>kv \<in> set d. if is_TAXIIBase (snd kv) then comparable (snd kv)
                        else dicts_distinct (snd kv)))"
| "comparable (Element i t as cs) = True"
| "comparable (Obj i c k fs) =
     (\<forall>fv \<in> set fs. is_member_name (fst fv) \<longrightarrow> comparable (snd fv))"

section \<open>Properties of the parser slot and the date/time helper\<close>

text \<open>
  C5. After \<^verbatim>\<open>set_xml_parser(c)\<close>, \<^verbatim>\<open>get_xml_parser()\<close> returns \<open>c\<close> and leaves the slot
  holding it. After \<^verbatim>\<open>set_xml_parser(None)\<close>, the next \<^verbatim>\<open>get_xml_parser()\<close> constructs
  a parser with \<^verbatim>\<open>no_network\<close> and \<^verbatim>\<open>huge_tree\<close> set, stores it in the slot and returns
  it; the parser is a new object, so it is none of the parsers that existed before, the
  one set earlier among them.
\<close>

theorem set_then_get_xml_parser:
  "get_xml_parser (set_xml_parser (Some c) s) = (c, set_xml_parser (Some c) s)
   \<and> XML_PARSER (snd (get_xml_parser (set_xml_parser (Some c) s))) = Some c
   \<and> (case get_xml_parser (set_xml_parser None s) of
        (p, s') \<Rightarrow>
          no_network p \<and> huge_tree p \<and> XML_PARSER s' = Some p
          \<and> parser_id p = next_id s \<and> next_id s' = Suc (next_id s)
          \<and> (\<forall>old. parser_id old < next_id s \<longrightarrow> p \<noteq> old))"
  by (auto simp: get_xml_parser_def set_xml_parser_def XMLParser_def)

theorem set_then_get_xml_parser_witness:
  "get_xml_parser (set_xml_parser None
      \<lparr>XML_PARSER = Some \<lparr>parser_id = 0, no_network = True, huge_tree = True\<rparr>,
       next_id = 1\<rparr>)
   = (\<lparr>parser_id = 1, no_network = True, huge_tree = True\<rparr>,
      \<lparr>XML_PARSER = Some \<lparr>parser_id = 1, no_network = True, huge_tree = True\<rparr>,
       next_id = 2\<rparr>)
   \<and> \<lparr>parser_id = 1, no_network = True, huge_tree = True\<rparr>
       \<noteq> \<lparr>parser_id = 0, no_network = True, huge_tree = True\<rparr>"
  using set_then_get_xml_parser
    [of "\<lparr>parser_id = 0, no_network = True, huge_tree = True\<rparr>"
        "\<lparr>XML_PARSER = Some \<lparr>parser_id = 0, no_network = True, huge_tree = True\<rparr>,
          next_id = 1\<rparr>"]
  by (simp add: get_xml_parser_def set_xml_parser_def XMLParser_def)

text \<open>
  C6. \<^verbatim>\<open>parse_datetime_string\<close> returns \<^verbatim>\<open>None\<close> for \<^verbatim>\<open>None\<close> and for the empty
  string, without calling the parser. For a non-empty string it returns what
  \<^verbatim>\<open>dateutil.parser.parse\<close> returns and raises what it raises.
\<close>

theorem parse_datetime_string_delegates:
  "parse_datetime_string parse None = Inr None
   \<and> parse_datetime_string parse (Some []) = Inr None
   \<and> (s \<noteq> [] \<longrightarrow>
        (\<forall>e. parse s = Inl e \<longrightarrow> parse_datetime_string parse (Some s) = Inl e)
        \<and> (\<forall>t. parse s = Inr t \<longrightarrow> parse_datetime_string parse (Some s) = Inr (Some t)))"
  by (simp add: parse_datetime_string_def)

theorem parse_datetime_string_delegates_witness:
  "parse_datetime_string (\<lambda>s. if s = ''2014'' then Inr (2014::int) else Inl ValueError)
      (Some ''2014'') = Inr (Some 2014)
   \<and> parse_datetime_string (\<lambda>s. if s = ''2014'' then Inr (2014::int) else Inl ValueError)
      (Some ''soon'') = Inl ValueError
   \<and> parse_datetime_string (\<lambda>s. if s = ''2014'' then Inr (2014::int) else Inl ValueError)
      (Some '''') = Inr None"
  using parse_datetime_string_delegates
    [of "\<lambda>s. if s = ''2014'' then Inr (2014::int) else Inl ValueError" "''2014''"]
    parse_datetime_string_delegates
    [of "\<lambda>s. if s = ''2014'' then Inr (2014::int) else Inl ValueError" "''soon''"]
  by simp

section \<open>Properties of TAXIIBase.\_\_eq\_\_\<close>

subsection \<open>The loop over the attributes\<close>

lemmas eval_defs = members_def is_member_name_def sorted_by_key_def py_set_def says_def

text \<open>
  The loop stops at the first attribute that is unequal or raises; attributes that
  compare equal only add to what is printed.
\<close>

lemma eq_members_append:
  "eq_members (ms @ ms') sd other debug =
     (if snd (eq_members ms sd other debug) = Inr True
      then (fst (eq_members ms sd other debug) @ fst (eq_members ms' sd other debug),
            snd (eq_members ms' sd other debug))
      else eq_members ms sd other debug)"
  by (induction ms) (auto split: option.splits sum.splits prod.splits)

lemma members_in_dict: "m \<in> set (members fs) \<Longrightarrow> \<exists>v. map_of fs m = Some v"
  by (auto simp: members_def dest: weak_map_of_SomeI)

lemma eq_members_missing:
  assumes "m \<in> set ms" and "map_of sd m = Some v" and "map_of od m = None"
  shows "snd (eq_members ms sd (Obj j c k od) debug) \<noteq> Inr True"
  using assms by (induction ms) (auto split: option.splits sum.splits prod.splits)

subsection \<open>Absent values and other types\<close>

text \<open>
  C4. When \<open>other\<close> is \<^verbatim>\<open>None\<close>, or the two class names differ, \<^verbatim>\<open>__eq__\<close> returns
  \<^verbatim>\<open>False\<close> at once: it prints at most the one line of that test, and neither the
  attributes of \<open>self\<close> nor those of \<open>other\<close> have any part in what it prints or
  returns.
\<close>

theorem eq_absent_or_other_class:
  assumes "other = Atom ANone \<or> c \<noteq> class_name other"
  shows "snd (TAXIIBase_eq (Obj i c k fs) other debug) = Inr False
    \<and> fst (TAXIIBase_eq (Obj i c k fs) other debug)
        = says debug (if other = Atom ANone then OtherWasNone
                      else ClassNamesNotEqual c (class_name other))
    \<and> TAXIIBase_eq (Obj i c k fs) other debug = TAXIIBase_eq (Obj i c k fs') other debug
    \<and> (\<forall>j c' k' gs gs'. other = Obj j c' k' gs \<longrightarrow>
          TAXIIBase_eq (Obj i c k fs) other debug
            = TAXIIBase_eq (Obj i c k fs) (Obj j c' k' gs') debug)"
  using assms by auto

theorem eq_absent_or_other_class_witness:
  "TAXIIBase_eq (Obj 1 ''Poll'' (Some (0::nat)) [(''_id'', Atom (AInt 1))]) (Atom ANone) True
     = ([OtherWasNone], Inr False)
   \<and> TAXIIBase_eq (Obj 1 ''Poll'' (Some (0::nat)) [(''_id'', Atom (AInt 1))])
        (Obj 2 ''Inbox'' (Some 0) [(''_id'', Atom (AInt 1))]) True
     = ([ClassNamesNotEqual ''Poll'' ''Inbox''], Inr False)"
  using eq_absent_or_other_class
      [of "Atom ANone" "''Poll''" 1 "Some (0::nat)" "[(''_id'', Atom (AInt 1))]" True]
    eq_absent_or_other_class
      [of "Obj 2 ''Inbox'' (Some (0::nat)) [(''_id'', Atom (AInt 1))]" "''Poll''" 1
          "Some (0::nat)" "[(''_id'', Atom (AInt 1))]" True]
  by (simp add: says_def)

subsection \<open>Failures\<close>

text \<open>
  C2 says that \<^verbatim>\<open>__eq__\<close> never raises, and that an \<open>other\<close> without an attribute
  \<open>self\<close> has makes it return \<^verbatim>\<open>False\<close>. The method reads
  \<^verbatim>\<open>other.__dict__[member]\<close> unguarded: with the attribute \<^verbatim>\<open>_x\<close> in \<open>self\<close> only,
  \<^verbatim>\<open>KeyError\<close> is raised.
\<close>

theorem eq_missing_attribute_raises:
  "TAXIIBase_eq (Obj 1 ''Poll'' (Some (0::nat)) [(''_x'', Atom (AInt 1))])
      (Obj 2 ''Poll'' (Some 0) []) False
   = ([], Inl KeyError)"
  by (simp add: eval_defs)

text \<open>
  C2, amended. \<^verbatim>\<open>__eq__\<close> returns \<^verbatim>\<open>False\<close> when \<open>other\<close> is \<^verbatim>\<open>None\<close> and when the
  class names differ. When \<open>other\<close> is an instance of a class of the same name without
  an attribute \<open>m\<close> that \<open>self\<close> has among the ones it compares, \<^verbatim>\<open>__eq__\<close> raises
  \<^verbatim>\<open>KeyError\<close> once the attributes before \<open>m\<close> have compared equal, and it never
  returns \<^verbatim>\<open>True\<close>.
\<close>

theorem eq_failure_semantics:
  "snd (TAXIIBase_eq (Obj i c k fs) (Atom ANone) debug) = Inr False
   \<and> (c \<noteq> class_name other \<longrightarrow> snd (TAXIIBase_eq (Obj i c k fs) other debug) = Inr False)
   \<and> (members fs = before @ m # after
        \<and> snd (eq_members before fs (Obj j c k' fs') debug) = Inr True
        \<and> map_of fs' m = None
      \<longrightarrow> snd (TAXIIBase_eq (Obj i c k fs) (Obj j c k' fs') debug) = Inl KeyError)
   \<and> (m \<in> set (members fs) \<and> map_of fs' m = None
      \<longrightarrow> snd (TAXIIBase_eq (Obj i c k fs) (Obj j c k' fs') debug) \<noteq> Inr True)"
proof (intro conjI impI)
  show "snd (TAXIIBase_eq (Obj i c k fs) (Atom ANone) debug) = Inr False" by simp
  show "snd (TAXIIBase_eq (Obj i c k fs) other debug) = Inr False" if "c \<noteq> class_name other"
    using that by simp
  show "snd (TAXIIBase_eq (Obj i c k fs) (Obj j c k' fs') debug) = Inl KeyError"
    if h: "members fs = before @ m # after
        \<and> snd (eq_members before fs (Obj j c k' fs') debug) = Inr True
        \<and> map_of fs' m = None"
  proof -
    from h have "m \<in> set (members fs)" by simp
    then obtain v where "map_of fs m = Some v" using members_in_dict by blast
    with h show ?thesis by (simp add: eq_members_append)
  qed
  show "snd (TAXIIBase_eq (Obj i c k fs) (Obj j c k' fs') debug) \<noteq> Inr True"
    if h: "m \<in> set (members fs) \<and> map_of fs' m = None"
  proof -
    from h obtain v where "map_of fs m = Some v" using members_in_dict by blast
    with h show ?thesis using eq_members_missing [of m "members fs" fs v fs'] by simp
  qed
qed

theorem eq_failure_semantics_witness:
  "snd (TAXIIBase_eq
          (Obj 1 ''Poll'' (Some (0::nat)) [(''_a'', Atom (AInt 7)), (''_b'', Atom (AInt 1))])
          (Obj 2 ''Poll'' (Some 0) [(''_a'', Atom (AInt 7))]) False) = Inl KeyError
   \<and> snd (TAXIIBase_eq
          (Obj 1 ''Poll'' (Some (0::nat)) [(''_a'', Atom (AInt 7)), (''_b'', Atom (AInt 1))])
          (Atom (AInt 7)) False) = Inr False"
  using eq_failure_semantics
      [where i = 1 and c = "''Poll''" and k = "Some (0::nat)"
         and fs = "[(''_a'', Atom (AInt 7)), (''_b'', Atom (AInt 1))]"
         and before = "[''_a'']" and m = "''_b''" and after = "[]"
         and j = 2 and k' = "Some 0" and fs' = "[(''_a'', Atom (AInt 7))]"
         and debug = False and other = "Atom (AInt 7)"]
  by (simp add: eval_defs)

subsection \<open>Lists of different lengths, empty lists\<close>

text \<open>
  C9. Let the attribute \<open>m\<close> hold a list in both instances. When the two lists differ
  in length, the attribute is unequal, and what would be printed for it names
  \<open>m\<close> with the suffix \<^verbatim>\<open>lengths\<close> and the two lengths; \<^verbatim>\<open>__eq__\<close> then returns
  \<^verbatim>\<open>False\<close> whenever no earlier attribute has raised, and when the earlier attributes
  compared equal the last line printed is that of the lengths, no later attribute
  being visited. When both lists are empty, the attribute is equal and the comparison
  goes on with the attributes after \<open>m\<close>.
\<close>

theorem eq_list_lengths:
  assumes "members fs = before @ m # after"
    and "map_of fs m = Some (PyList xs)" and "map_of fs' m = Some (PyList ys)"
  shows "(length xs \<noteq> length ys \<longrightarrow>
           eq_value m (PyList xs) (PyList ys) debug
             = ([], Inr (False, m @ '' lengths'',
                   Atom (AInt (int (length xs))), Atom (AInt (int (length ys)))))
           \<and> ((\<exists>r. snd (eq_members before fs (Obj j c k' fs') debug) = Inr r) \<longrightarrow>
                 snd (TAXIIBase_eq (Obj i c k fs) (Obj j c k' fs') debug) = Inr False)
           \<and> (snd (eq_members before fs (Obj j c k' fs') debug) = Inr True \<longrightarrow>
                 fst (TAXIIBase_eq (Obj i c k fs) (Obj j c k' fs') debug)
                   = fst (eq_members before fs (Obj j c k' fs') debug)
                     @ says debug (MemberName m)
                     @ says debug (WasNotEqual (m @ '' lengths'')
                         (Atom (AInt (int (length xs)))) (Atom (AInt (int (length ys)))))))
    \<and> (xs = [] \<and> ys = [] \<longrightarrow>
           eq_value m (PyList xs) (PyList ys) debug = ([], Inr (True, m, PyList [], PyList []))
           \<and> (snd (eq_members before fs (Obj j c k' fs') debug) = Inr True \<longrightarrow>
                 TAXIIBase_eq (Obj i c k fs) (Obj j c k' fs') debug
                   = (fst (eq_members before fs (Obj j c k' fs') debug)
                        @ says debug (MemberName m)
                        @ fst (eq_members after fs (Obj j c k' fs') debug),
                      snd (eq_members after fs (Obj j c k' fs') debug))))"
proof -
  let ?b = "Obj j c k' fs'"
  have step: "eq_members (m # after) fs ?b debug =
      (case eq_value m (PyList xs) (PyList ys) debug of
         (out, Inl e) \<Rightarrow> (says debug (MemberName m) @ out, Inl e)
       | (out, Inr (r, member', self_value', other_value')) \<Rightarrow>
           if \<not> r
           then (says debug (MemberName m) @ out
                   @ says debug (WasNotEqual member' self_value' other_value'), Inr False)
           else (case eq_members after fs ?b debug of
                   (out', res) \<Rightarrow> (says debug (MemberName m) @ out @ out', res)))"
    using assms(2,3) by simp
  have whole: "TAXIIBase_eq (Obj i c k fs) ?b debug = eq_members (before @ m # after) fs ?b debug"
    using assms(1) by simp
  show ?thesis
    unfolding whole
    apply (intro conjI impI)
        apply simp
       apply (erule exE)
    subgoal for r
      by (cases r) (simp_all add: eq_members_append step del: eq_members.simps)
      apply (simp add: eq_members_append step del: eq_members.simps)
     apply simp
    apply (simp add: eq_members_append step del: eq_members.simps split: prod.splits)
    done
qed

theorem eq_list_lengths_witness:
  "TAXIIBase_eq
      (Obj 1 ''Poll'' (Some (0::nat))
         [(''_id'', Atom (AInt 7)), (''_items'', PyList [Atom (AInt 1), Atom (AInt 2)]),
          (''_tail'', Atom (AInt 0))])
      (Obj 2 ''Poll'' (Some 0)
         [(''_id'', Atom (AInt 7)), (''_items'', PyList [Atom (AInt 1)]),
          (''_tail'', Atom (AInt 0))]) True
   = ([MemberName ''_id'', MemberName ''_items'',
       WasNotEqual ''_items lengths'' (Atom (AInt 2)) (Atom (AInt 1))], Inr False)"
  using eq_list_lengths
      [where i = 1 and c = "''Poll''" and k = "Some (0::nat)"
         and fs = "[(''_id'', Atom (AInt 7)),
                    (''_items'', PyList [Atom (AInt 1), Atom (AInt 2)]),
                    (''_tail'', Atom (AInt 0))]"
         and before = "[''_id'']" and m = "''_items''" and after = "[''_tail'']"
         and xs = "[Atom (AInt 1), Atom (AInt 2)]" and ys = "[Atom (AInt 1)]"
         and j = 2 and k' = "Some 0"
         and fs' = "[(''_id'', Atom (AInt 7)), (''_items'', PyList [Atom (AInt 1)]),
                     (''_tail'', Atom (AInt 0))]"
         and debug = True]
  by (simp add: eval_defs)

subsection \<open>Dicts\<close>

text \<open>
  C1 says that two dicts with different key sets make \<^verbatim>\<open>__eq__\<close> return \<^verbatim>\<open>False\<close>.
  The branch for dicts sets \<^verbatim>\<open>eq = False\<close> when \<open>self\<close>'s dict has a key the other
  lacks, runs the loop over the items and then sets \<^verbatim>\<open>eq = True\<close>. With a key in
  \<open>other\<close>'s dict only, the result is \<^verbatim>\<open>True\<close>; with a key in \<open>self\<close>'s dict only, the
  mismatch is printed and the loop raises \<^verbatim>\<open>KeyError\<close>; and with the same keys and
  different values, the mismatch is printed and the result is \<^verbatim>\<open>True\<close>.
\<close>

theorem eq_dict_key_sets_differ:
  "TAXIIBase_eq (Obj 1 ''Poll'' (Some (0::nat)) [(''_d'', PyDict [])])
      (Obj 2 ''Poll'' (Some 0) [(''_d'', PyDict [(AStr ''k'', Atom (AInt 1))])]) True
     = ([MemberName ''_d''], Inr True)
   \<and> TAXIIBase_eq (Obj 1 ''Poll'' (Some (0::nat)) [(''_d'', PyDict [(AStr ''k'', Atom (AInt 1))])])
        (Obj 2 ''Poll'' (Some 0) [(''_d'', PyDict [])]) True
     = ([MemberName ''_d'',
         DictKeysNotEqual (PyDict [(AStr ''k'', Atom (AInt 1))]) (PyDict [])], Inl KeyError)
   \<and> TAXIIBase_eq (Obj 1 ''Poll'' (Some (0::nat)) [(''_d'', PyDict [(AStr ''k'', Atom (AInt 1))])])
        (Obj 2 ''Poll'' (Some 0) [(''_d'', PyDict [(AStr ''k'', Atom (AInt 2))])]) True
     = ([MemberName ''_d'', DictValuesNotEqual (Atom (AInt 1)) (Atom (AInt 2))], Inr True)"
  by (simp add: eval_defs)

text \<open>The branch for dicts never finds an attribute unequal.\<close>

lemma eq_value_dict_never_unequal:
  "snd (eq_value m (PyDict d) other_value debug) \<noteq> Inr (False, m', v', w')"
  by (auto split: sum.splits prod.splits)


subsection \<open>Lists of instances\<close>

lemma collect_total:
  "\<forall>x \<in> set xs. \<exists>y. f x = Inr y \<Longrightarrow> \<exists>ys. collect f xs = Inr ys"
  by (induction xs) (auto split: sum.splits)

lemma collect_pairs:
  "\<forall>p \<in> set ps. f (snd p) = Inr (fst p) \<Longrightarrow> collect f (map snd ps) = Inr (map fst ps)"
  by (induction ps) auto

lemma collect_zip:
  "collect f xs = Inr ys \<Longrightarrow> \<forall>p \<in> set (zip ys xs). f (snd p) = Inr (fst p)"
  by (induction xs arbitrary: ys) (auto split: sum.splits)

lemma implements_sort_key_iff: "implements_sort_key v \<longleftrightarrow> (\<exists>k. sort_key_of v = Inr k)"
  by (cases "sort_key_of v") (auto simp: implements_sort_key_def)

lemma sorted_by_key_sorts:
  assumes "\<forall>v \<in> set xs. implements_sort_key v"
  shows "\<exists>sx ks. sorted_by_key xs = Inr sx \<and> mset sx = mset xs
           \<and> collect sort_key_of sx = Inr ks \<and> sorted ks"
proof -
  from assms have "\<forall>v \<in> set xs. \<exists>k. sort_key_of v = Inr k"
    by (simp add: implements_sort_key_iff)
  then obtain ks where ks: "collect sort_key_of xs = Inr ks"
    using collect_total by blast
  let ?ps = "sort_key fst (zip ks xs)"
  have len: "length ks = length xs" using collect_length [OF ks] .
  have "sorted_by_key xs = Inr (map snd ?ps)"
    by (simp add: sorted_by_key_def ks)
  moreover have "mset (map snd ?ps) = mset xs"
  proof -
    have "mset (map snd ?ps) = image_mset snd (mset (zip ks xs))" by simp
    also have "\<dots> = mset (map snd (zip ks xs))" by simp
    also have "\<dots> = mset xs" using len by simp
    finally show ?thesis .
  qed
  moreover have "collect sort_key_of (map snd ?ps) = Inr (map fst ?ps)"
    using collect_zip [OF ks] by (intro collect_pairs) simp
  moreover have "sorted (map fst ?ps)" by (rule sorted_sort_key)
  ultimately show ?thesis by blast
qed





subsection \<open>Lists compared as sets\<close>



lemma collect_set:
  "collect f xs = Inr ys \<Longrightarrow> set ys = {y. \<exists>x \<in> set xs. f x = Inr y}"
  by (induction xs arbitrary: ys) (auto split: sum.splits)

lemma hashable_iff: "hashable v \<longleftrightarrow> (\<exists>h. py_hash v = Inr h)"
  by (cases "py_hash v") (auto simp: hashable_def)



lemma py_set_hashable:
  "\<forall>v \<in> set xs. hashable v \<Longrightarrow>
     \<exists>hs. py_set xs = Inr hs \<and> set hs = {h. \<exists>v \<in> set xs. py_hash v = Inr h}"
  using collect_total [of xs py_hash] collect_set [of py_hash xs]
  by (auto simp: py_set_def hashable_iff)










subsection \<open>The first element selects the comparison\<close>











subsection \<open>Comparing an instance with itself\<close>

lemma sorted_by_key_set: "sorted_by_key xs = Inr sx \<Longrightarrow> set sx = set xs"
proof -
  assume a: "sorted_by_key xs = Inr sx"
  then obtain ks where ks: "collect sort_key_of xs = Inr ks"
    and sx: "sx = map snd (sort_key fst (zip ks xs))"
    by (auto simp: sorted_by_key_def split: sum.splits)
  have "set sx = snd ` set (zip ks xs)" by (simp add: sx)
  also have "\<dots> = set (map snd (zip ks xs))" by simp
  also have "\<dots> = set xs" using collect_length [OF ks] by simp
  finally show ?thesis .
qed

lemma eq_items_self_not_False:
  "r \<Longrightarrow> \<forall>x \<in> set xs. \<forall>out. TAXIIBase_eq x x debug \<noteq> (out, Inr False) \<Longrightarrow>
     eq_items r xs xs debug \<noteq> (out', Inr False)"
proof (induction xs arbitrary: r out')
  case Nil
  then show ?case by simp
next
  case (Cons x xs)
  show ?case
  proof (cases "TAXIIBase_eq x x debug")
    case (Pair out res)
    show ?thesis
    proof (cases res)
      case (Inl e)
      with Pair show ?thesis by simp
    next
      case (Inr r')
      with Pair Cons.prems have r': "r'" by auto
      from Cons.prems have "\<forall>x \<in> set xs. \<forall>out. TAXIIBase_eq x x debug \<noteq> (out, Inr False)"
        by simp
      from Cons.IH [OF r' this] Pair Inr show ?thesis
        by (auto split: prod.splits)
    qed
  qed
qed

lemma eq_members_self_not_False:
  assumes "\<And>m v out a b c. map_of fs m = Some v \<Longrightarrow>
       eq_value m v v debug \<noteq> (out, Inr (False, a, b, c))"
  shows "eq_members ms fs (Obj i c k fs) debug \<noteq> (out, Inr False)"
proof (induction ms arbitrary: out)
  case Nil
  then show ?case by simp
next
  case (Cons m ms)
  show ?case
  proof (cases "map_of fs m")
    case None
    with Cons show ?thesis by simp
  next
    case (Some v)
    obtain o1 res where ev: "eq_value m v v debug = (o1, res)" by (cases "eq_value m v v debug")
    show ?thesis
    proof (cases res)
      case (Inl e)
      with Some ev show ?thesis by simp
    next
      case (Inr t)
      obtain r a b c where t: "t = (r, a, b, c)" by (cases t) auto
      with assms [OF Some, of o1 a b c] ev Inr have r by auto
      with Some ev Inr t Cons show ?thesis by (auto split: prod.splits)
    qed
  qed
qed

lemma eq_self_not_False_aux:
  "(\<forall>debug out. TAXIIBase_eq v v debug \<noteq> (out, Inr False))
   \<and> (\<forall>m debug out a b c. eq_value m v v debug \<noteq> (out, Inr (False, a, b, c)))"
proof (induction v)
  case (Atom a)
  then show ?case by simp
next
  case (PyList xs)
  have "eq_value m (PyList xs) (PyList xs) debug \<noteq> (out, Inr (False, a, b, c))"
    for m debug out a b c
  proof (cases xs)
    case Nil
    then show ?thesis by simp
  next
    case (Cons x xs')
    show ?thesis
    proof (cases "is_TAXIIBase x")
      case True
      show ?thesis
      proof (cases "sorted_by_key xs")
        case (Inl e)
        with True Cons show ?thesis by simp
      next
        case (Inr sx)
        then have "set sx = set xs" by (rule sorted_by_key_set)
        with PyList have "\<forall>x \<in> set sx. \<forall>out. TAXIIBase_eq x x debug \<noteq> (out, Inr False)"
          by simp
        then have nf: "eq_items True sx sx debug \<noteq> (out', Inr False)" for out'
          by (intro eq_items_self_not_False) simp_all
        obtain o1 res where ei: "eq_items True sx sx debug = (o1, res)"
          by (cases "eq_items True sx sx debug")
        with nf [of o1] have "res \<noteq> Inr False" by simp
        with True Inr ei show ?thesis
          unfolding Cons [symmetric] using Cons
          by (cases res) (auto split: list.splits)
      qed
    next
      case False
      with Cons show ?thesis by (auto split: sum.splits)
    qed
  qed
  then show ?case by simp
next
  case (PyDict d)
  then show ?case by (auto split: prod.splits sum.splits)
next
  case (Element i t as cs)
  then show ?case by simp
next
  case (Obj i c k fs)
  have fields: "eq_value m v v debug \<noteq> (out, Inr (False, a, b, c))"
    if "map_of fs m = Some v" for m v debug out a b c
  proof -
    from that have "(m, v) \<in> set fs" by (rule map_of_SomeD)
    then show ?thesis using Obj [of "(m, v)" v] by simp
  qed
  have whole: "TAXIIBase_eq (Obj i c k fs) (Obj i c k fs) debug \<noteq> (out, Inr False)"
    for debug out
    using eq_members_self_not_False [of fs debug "members fs" i c k out] fields by simp
  have "eq_value m (Obj i c k fs) (Obj i c k fs) debug \<noteq> (out, Inr (False, a, b, c'))"
    for m debug out a b c'
  proof -
    obtain o1 res where te: "TAXIIBase_eq (Obj i c k fs) (Obj i c k fs) debug = (o1, res)"
      by (cases "TAXIIBase_eq (Obj i c k fs) (Obj i c k fs) debug")
    with whole [of debug o1] have "res \<noteq> Inr False" by simp
    with te show ?thesis by (cases res) (auto simp del: TAXIIBase_eq.simps)
  qed
  with whole show ?case by blast
qed

lemma eq_self_not_False: "snd (TAXIIBase_eq v v debug) \<noteq> Inr False"
  using eq_self_not_False_aux [of v] by (metis prod.collapse)

lemma list_eq_self:
  "\<forall>x \<in> set xs. rich_eq_bool x x = Inr True \<Longrightarrow> list_eq xs xs = Inr True"
  by (induction xs) (simp_all del: rich_eq_bool.simps)

lemma dict_eq_self:
  assumes "distinct (map fst d)"
  shows "set kvs \<subseteq> set d \<Longrightarrow> \<forall>kv \<in> set kvs. rich_eq_bool (snd kv) (snd kv) = Inr True \<Longrightarrow>
     dict_eq kvs d = Inr True"
proof (induction kvs)
  case Nil
  then show ?case by simp
next
  case (Cons kv kvs)
  obtain k v where kv: "kv = (k, v)" by (cases kv)
  with Cons.prems have "(k, v) \<in> set d" by simp
  with assms have "map_of d k = Some v" by (rule map_of_is_SomeI)
  with Cons kv show ?case by (simp del: rich_eq_bool.simps)
qed

lemma rich_eq_bool_self: "dicts_distinct v \<Longrightarrow> rich_eq_bool v v = Inr True"
proof (induction v)
  case (Atom a)
  then show ?case by simp
next
  case (PyList xs)
  then have "\<forall>x \<in> set xs. rich_eq_bool x x = Inr True" by simp
  then have "list_eq xs xs = Inr True" by (rule list_eq_self)
  then show ?case by simp
next
  case (PyDict d)
  then have "\<forall>kv \<in> set d. rich_eq_bool (snd kv) (snd kv) = Inr True"
    by (auto simp del: rich_eq_bool.simps intro: snds.intros)
  with PyDict.prems have "dict_eq d d = Inr True"
    by (intro dict_eq_self) simp_all
  then show ?case by simp
next
  case (Element i t as cs)
  then show ?case by simp
next
  case (Obj i c k fs)
  then show ?case by simp
qed

lemma rich_ne_self_plain:
  assumes "\<not> is_TAXIIBase v" and "dicts_distinct v"
  shows "rich_ne v v = Inr False"
proof -
  from assms(2) have "rich_eq_bool v v = Inr True" by (rule rich_eq_bool_self)
  with assms(1) show ?thesis by (cases v) (simp_all split: if_splits)
qed

lemma rich_ne_self_instance:
  assumes "TAXIIBase_eq v v False = (out, Inr True)" and "is_TAXIIBase v"
  shows "rich_ne v v = Inr False"
  using assms by (cases v) (simp_all del: TAXIIBase_eq.simps)

lemma eq_dict_items_self:
  assumes "distinct (map fst d)"
  shows "set kvs \<subseteq> set d \<Longrightarrow> \<forall>kv \<in> set kvs. \<exists>b. rich_ne (snd kv) (snd kv) = Inr b \<Longrightarrow>
     \<exists>out. eq_dict_items kvs (PyDict d) debug = (out, Inr ())"
proof (induction kvs)
  case Nil
  then show ?case by simp
next
  case (Cons kv kvs)
  obtain k v where kv: "kv = (k, v)" by (cases kv)
  with Cons.prems have "(k, v) \<in> set d" by simp
  with assms have look: "map_of d k = Some v" by (rule map_of_is_SomeI)
  from Cons.prems kv obtain b where b: "rich_ne v v = Inr b" by auto
  from Cons obtain out where "eq_dict_items kvs (PyDict d) debug = (out, Inr ())" by auto
  with look b kv show ?case by simp
qed

lemma eq_items_self_True:
  "r \<Longrightarrow> \<forall>x \<in> set xs. \<exists>out. TAXIIBase_eq x x debug = (out, Inr True) \<Longrightarrow>
     \<exists>out. eq_items r xs xs debug = (out, Inr True)"
proof (induction xs arbitrary: r)
  case Nil
  then show ?case by simp
next
  case (Cons x xs)
  from Cons.prems obtain o1 where o1: "TAXIIBase_eq x x debug = (o1, Inr True)" by auto
  from Cons.prems have "\<forall>x \<in> set xs. \<exists>out. TAXIIBase_eq x x debug = (out, Inr True)" by simp
  from Cons.IH [OF TrueI this] obtain o2 where "eq_items True xs xs debug = (o2, Inr True)"
    by auto
  with o1 show ?case by simp
qed

lemma eq_members_self_True:
  assumes "\<And>m v. m \<in> set ms \<Longrightarrow> map_of fs m = Some v \<Longrightarrow>
       \<exists>out a b c. eq_value m v v debug = (out, Inr (True, a, b, c))"
  shows "\<exists>out. eq_members ms fs (Obj i c k fs) debug = (out, Inr True)"
  using assms
proof (induction ms)
  case Nil
  then show ?case by simp
next
  case (Cons m ms)
  from Cons obtain o2 where rest: "eq_members ms fs (Obj i c k fs) debug = (o2, Inr True)"
    by auto
  show ?case
  proof (cases "map_of fs m")
    case None
    with rest show ?thesis by simp
  next
    case (Some v)
    with Cons.prems [of m v] obtain o1 a b c
      where "eq_value m v v debug = (o1, Inr (True, a, b, c))" by auto
    with Some rest show ?thesis by simp
  qed
qed

lemma implements_sort_key_instance: "implements_sort_key v \<Longrightarrow> is_TAXIIBase v"
  by (cases v) (simp_all add: implements_sort_key_def)

lemma eq_self_True_aux:
  "comparable v \<Longrightarrow>
     (\<forall>debug. is_TAXIIBase v \<longrightarrow> (\<exists>out. TAXIIBase_eq v v debug = (out, Inr True)))
   \<and> (\<forall>m debug. \<exists>out a b c. eq_value m v v debug = (out, Inr (True, a, b, c)))"
proof (induction v)
  case (Atom a)
  then show ?case by simp
next
  case (PyList xs)
  have "\<exists>out a b c. eq_value m (PyList xs) (PyList xs) debug = (out, Inr (True, a, b, c))"
    for m debug
  proof (cases xs)
    case Nil
    then show ?thesis by simp
  next
    case (Cons x xs')
    show ?thesis
    proof (cases "is_TAXIIBase x")
      case True
      with PyList.prems Cons have all: "\<forall>v \<in> set xs. implements_sort_key v \<and> comparable v"
        by simp
      then obtain sx where sx: "sorted_by_key xs = Inr sx"
        using sorted_by_key_sorts [of xs] by auto
      then have "set sx = set xs" by (rule sorted_by_key_set)
      with all PyList.IH
      have "\<forall>x \<in> set sx. \<exists>out. TAXIIBase_eq x x debug = (out, Inr True)"
        using implements_sort_key_instance by blast
      then obtain out where "eq_items True sx sx debug = (out, Inr True)"
        using eq_items_self_True [of True sx debug] by auto
      with True sx show ?thesis
        unfolding Cons [symmetric] using Cons by (auto split: list.splits)
    next
      case False
      with PyList.prems Cons have "\<forall>v \<in> set xs. hashable v" by simp
      then obtain hs where "py_set xs = Inr hs" using py_set_hashable by blast
      with False show ?thesis
        unfolding Cons [symmetric] using Cons by (auto split: list.splits)
    qed
  qed
  then show ?case by simp
next
  case (PyDict d)
  have dist: "distinct (map fst d)" using PyDict.prems by simp
  have "\<exists>b. rich_ne (snd kv) (snd kv) = Inr b" if kv: "kv \<in> set d" for kv
  proof (cases "is_TAXIIBase (snd kv)")
    case True
    with PyDict.prems kv have "comparable (snd kv)" by auto
    with PyDict.IH [of kv "snd kv"] kv True
    obtain out where "TAXIIBase_eq (snd kv) (snd kv) False = (out, Inr True)"
      by (auto intro: snds.intros)
    then show ?thesis using True rich_ne_self_instance by blast
  next
    case False
    with PyDict.prems kv have "dicts_distinct (snd kv)" by auto
    with False show ?thesis using rich_ne_self_plain by blast
  qed
  then have loop: "\<exists>out. eq_dict_items d (PyDict d) debug = (out, Inr ())" for debug
    using eq_dict_items_self [OF dist, of d debug] by simp
  have "\<exists>out a b c. eq_value m (PyDict d) (PyDict d) debug = (out, Inr (True, a, b, c))"
    for m debug
    using loop [of debug] by auto
  then show ?case by simp
next
  case (Element i t as cs)
  then show ?case by simp
next
  case (Obj i c k fs)
  have fields: "\<exists>out a b c'. eq_value m v v debug = (out, Inr (True, a, b, c'))"
    if "m \<in> set (members fs)" "map_of fs m = Some v" for m v debug
  proof -
    from that(2) have in_fs: "(m, v) \<in> set fs" by (rule map_of_SomeD)
    from that(1) have "is_member_name m" by (simp add: members_def)
    with Obj.prems in_fs have "comparable v" by auto
    with Obj.IH [of "(m, v)" v] in_fs show ?thesis by simp
  qed
  have whole: "\<exists>out. TAXIIBase_eq (Obj i c k fs) (Obj i c k fs) debug = (out, Inr True)"
    for debug
    using eq_members_self_True [of "members fs" fs debug i c k] fields by simp
  have "\<exists>out a b c'. eq_value m (Obj i c k fs) (Obj i c k fs) debug
            = (out, Inr (True, a, b, c'))" for m debug
  proof -
    from whole [of debug] obtain out
      where "TAXIIBase_eq (Obj i c k fs) (Obj i c k fs) debug = (out, Inr True)" by blast
    then show ?thesis by (simp del: TAXIIBase_eq.simps)
  qed
  with whole show ?case by blast
qed


text \<open>
  C7 says that an instance always equals itself. An instance with a list of lists in an
  attribute does not: the list does not start with an instance, so the method builds
  \<^verbatim>\<open>set(self_value)\<close>, and a list cannot be hashed.
\<close>

theorem eq_self_list_of_lists_raises:
  "TAXIIBase_eq (Obj 1 ''Poll'' (Some (0::nat)) [(''_x'', PyList [PyList [Atom (AInt 1)]])])
      (Obj 1 ''Poll'' (Some 0) [(''_x'', PyList [PyList [Atom (AInt 1)]])]) False
   = ([], Inl TypeError)"
  by (simp add: eval_defs)

text \<open>
  C7, amended. For attribute values of the kinds \<open>pyval\<close> covers, comparing an
  instance with itself never returns \<^verbatim>\<open>False\<close>; and it returns \<^verbatim>\<open>True\<close> when
  the instance is \<open>comparable\<close>: through the attributes the
  method visits, every list is empty, or starts with an instance and holds only
  instances that implement \<^verbatim>\<open>sort_key\<close>, or starts with another value and holds only
  hashable values, and every dict holds each key once with values that are such
  instances or hold no dict with a repeated key.
\<close>

theorem eq_self:
  "snd (TAXIIBase_eq (Obj i c k fs) (Obj i c k fs) debug) \<noteq> Inr False
   \<and> (comparable (Obj i c k fs) \<longrightarrow>
        snd (TAXIIBase_eq (Obj i c k fs) (Obj i c k fs) debug) = Inr True)"
proof (intro conjI impI)
  show "snd (TAXIIBase_eq (Obj i c k fs) (Obj i c k fs) debug) \<noteq> Inr False"
    by (rule eq_self_not_False)
  assume ok: "comparable (Obj i c k fs)"
  have "is_TAXIIBase (Obj i c k fs)" by simp
  with eq_self_True_aux [OF ok]
  obtain out where "TAXIIBase_eq (Obj i c k fs) (Obj i c k fs) debug = (out, Inr True)"
    by blast
  then show "snd (TAXIIBase_eq (Obj i c k fs) (Obj i c k fs) debug) = Inr True"
    by (simp del: TAXIIBase_eq.simps)
qed

theorem eq_self_witness:
  "comparable
     (Obj 1 ''Envelope'' (Some (0::nat))
        [(''_id'', Atom (AStr ''abc'')),
         (''_items'', PyList [Obj 2 ''Item'' (Some 2) [(''_v'', Atom (AInt 5))],
                              Obj 3 ''Item'' (Some 1) [(''_v'', Atom (AInt 7))]]),
         (''_headers'', PyDict [(AStr ''h'', Atom (AInt 1))]),
         (''_tags'', PyList [Atom (AStr ''a''), Atom (AStr ''b'')])])
   \<and> snd (TAXIIBase_eq
       (Obj 1 ''Envelope'' (Some (0::nat))
        [(''_id'', Atom (AStr ''abc'')),
         (''_items'', PyList [Obj 2 ''Item'' (Some 2) [(''_v'', Atom (AInt 5))],
                              Obj 3 ''Item'' (Some 1) [(''_v'', Atom (AInt 7))]]),
         (''_headers'', PyDict [(AStr ''h'', Atom (AInt 1))]),
         (''_tags'', PyList [Atom (AStr ''a''), Atom (AStr ''b'')])])
       (Obj 1 ''Envelope'' (Some (0::nat))
        [(''_id'', Atom (AStr ''abc'')),
         (''_items'', PyList [Obj 2 ''Item'' (Some 2) [(''_v'', Atom (AInt 5))],
                              Obj 3 ''Item'' (Some 1) [(''_v'', Atom (AInt 7))]]),
         (''_headers'', PyDict [(AStr ''h'', Atom (AInt 1))]),
         (''_tags'', PyList [Atom (AStr ''a''), Atom (AStr ''b'')])]) True) = Inr True"
  using eq_self
      [of 1 "''Envelope''" "Some (0::nat)"
          "[(''_id'', Atom (AStr ''abc'')),
            (''_items'', PyList [Obj 2 ''Item'' (Some 2) [(''_v'', Atom (AInt 5))],
                                 Obj 3 ''Item'' (Some 1) [(''_v'', Atom (AInt 7))]]),
            (''_headers'', PyDict [(AStr ''h'', Atom (AInt 1))]),
            (''_tags'', PyList [Atom (AStr ''a''), Atom (AStr ''b'')])]" True]
  by (simp add: is_member_name_def implements_sort_key_def hashable_def)

end
